theory Spec2Isabelle
  imports Complex_Main "HOL-Library.Sublist"
begin

section \<open>Article search pipeline: shallow embedding\<close>

text \<open>
  The development follows the two programs of the repository:
  \<^verbatim>\<open>milvus_search.py\<close> (date-range extraction, relational fetch, search) and
  \<^verbatim>\<open>milvus_insert.py\<close> (collection lifecycle, embedding fusion, insertion).
  External collaborators (the sentence encoder, \<^verbatim>\<open>dateparser\<close>, the Milvus server,
  the MySQL server) are parameters or explicit state; every exception of the source is
  a value \<open>Inl e\<close> of a sum type.
\<close>

subsection \<open>Exceptions\<close>

datatype error =
    ValueError
  | KeyError
  | IndexError
  | OverflowError
  | External string  \<comment> \<open>an exception raised inside a collaborator, with its message\<close>

subsection \<open>Strings\<close>

text \<open>
  A Python \<^verbatim>\<open>str\<close> is modelled as a \<open>string\<close> whose characters are the code points
  below 256. On these, \<^verbatim>\<open>str.lower\<close> maps \<open>A\<close>--\<open>Z\<close> and the capital letters
  192--222 (except the multiplication sign 215) to the code point 32 above.
\<close>

definition lower_char :: "char \<Rightarrow> char" where
  "lower_char c =
     (let n = (of_char c :: nat)
      in if (65 \<le> n \<and> n \<le> 90) \<or> (192 \<le> n \<and> n \<le> 222 \<and> n \<noteq> 215)
         then char_of (n + 32) else c)"

definition lower :: "string \<Rightarrow> string" where
  "lower s = map lower_char s"

text \<open>\<^verbatim>\<open>sub in s\<close>: \<open>sub\<close> occurs in \<open>s\<close> as a contiguous substring.\<close>

fun contains :: "string \<Rightarrow> string \<Rightarrow> bool" where
  "contains sub [] = (sub = [])"
| "contains sub (c # cs) = (prefix sub (c # cs) \<or> contains sub cs)"

subsection \<open>The pattern \<^verbatim>\<open>(last|past)\s(\d+)\s(days|weeks|months)\<close>\<close>

text \<open>
  \<^verbatim>\<open>\s\<close> on a \<^verbatim>\<open>str\<close> pattern matches the characters for which
  \<^verbatim>\<open>str.isspace\<close> holds: below 256 these are 9--13, 28--32, 133 and 160.
  \<^verbatim>\<open>\d\<close> matches the decimal digits, below 256 only \<open>0\<close>--\<open>9\<close>.
\<close>

definition is_space :: "char \<Rightarrow> bool" where
  "is_space c =
     (let n = (of_char c :: nat)
      in (9 \<le> n \<and> n \<le> 13) \<or> (28 \<le> n \<and> n \<le> 32) \<or> n = 133 \<or> n = 160)"

definition is_digit :: "char \<Rightarrow> bool" where
  "is_digit c = (let n = (of_char c :: nat) in 48 \<le> n \<and> n \<le> 57)"

text \<open>
  The third group, tried in the order of the alternation, under
  \<^verbatim>\<open>re.IGNORECASE\<close>; the group is returned as written in the query.
\<close>

definition match_unit :: "string \<Rightarrow> string option" where
  "match_unit s =
     (if lower (take 4 s) = ''days'' then Some (take 4 s)
      else if lower (take 5 s) = ''weeks'' then Some (take 5 s)
      else if lower (take 6 s) = ''months'' then Some (take 6 s)
      else None)"

text \<open>
  A match that starts at the first character of \<open>s\<close>. The digit group is greedy;
  giving digits back cannot help, because the character after a shorter digit run is a
  digit and not white space. The result is \<open>(group 2, group 3)\<close>.
\<close>

definition match_here :: "string \<Rightarrow> (string \<times> string) option" where
  "match_here s =
     (if lower (take 4 s) = ''last'' \<or> lower (take 4 s) = ''past'' then
        (case drop 4 s of
           [] \<Rightarrow> None
         | w # r \<Rightarrow>
             if is_space w \<and> takeWhile is_digit r \<noteq> [] then
               (case dropWhile is_digit r of
                  [] \<Rightarrow> None
                | w' # r' \<Rightarrow>
                    if is_space w' then
                      (case match_unit r' of
                         None \<Rightarrow> None
                       | Some u \<Rightarrow> Some (takeWhile is_digit r, u))
                    else None)
             else None)
      else None)"

text \<open>\<^verbatim>\<open>re.search\<close>: the match at the leftmost position that has one.\<close>

fun re_search :: "string \<Rightarrow> (string \<times> string) option" where
  "re_search [] = match_here []"
| "re_search (c # cs) =
     (case match_here (c # cs) of
        Some m \<Rightarrow> Some m
      | None \<Rightarrow> re_search cs)"

text \<open>
  \<^verbatim>\<open>int(...)\<close> on a run of decimal digits. (An interpreter with a limit on the
  length of such a run raises \<^verbatim>\<open>ValueError\<close> beyond it; here such a run reaches
  \<^verbatim>\<open>timedelta\<close> and raises \<^verbatim>\<open>OverflowError\<close>. No range is returned in
  either case.)
\<close>

definition digit_value :: "char \<Rightarrow> int" where
  "digit_value c = int (of_char c) - 48"

definition int_of_digits :: "string \<Rightarrow> int" where
  "int_of_digits ds = foldl (\<lambda>n c. 10 * n + digit_value c) 0 ds"

subsection \<open>Dates\<close>

text \<open>
  A \<^verbatim>\<open>date\<close> is its proleptic Gregorian ordinal (\<^verbatim>\<open>date.toordinal()\<close>);
  the first representable day is 1. \<^verbatim>\<open>now\<close> is used only through
  \<^verbatim>\<open>now.date()\<close> and through \<^verbatim>\<open>(now - timedelta(...)).date()\<close> with whole
  days, so the time of day plays no role and \<open>now\<close> is the ordinal of today.
\<close>

type_synonym date = int

text \<open>
  \<^verbatim>\<open>timedelta(days=d)\<close> raises \<^verbatim>\<open>OverflowError\<close> beyond 999999999 days.
\<close>

definition timedelta :: "int \<Rightarrow> error + int" where
  "timedelta d = (if \<bar>d\<bar> > 999999999 then Inl OverflowError else Inr d)"

text \<open>
  \<^verbatim>\<open>(now - td).date()\<close> raises \<^verbatim>\<open>OverflowError\<close> when the result leaves the
  representable years 1--9999 (ordinals 1--3652059).
\<close>

definition date_minus :: "date \<Rightarrow> int \<Rightarrow> error + date" where
  "date_minus now d =
     (if now - d < 1 \<or> 3652059 < now - d then Inl OverflowError else Inr (now - d))"

definition days_back :: "date \<Rightarrow> int \<Rightarrow> error + (date \<times> date) option" where
  "days_back now d =
     (case timedelta d of
        Inl e \<Rightarrow> Inl e
      | Inr td \<Rightarrow>
          (case date_minus now td of
             Inl e \<Rightarrow> Inl e
           | Inr start \<Rightarrow> Inr (Some (start, now))))"

subsection \<open>\<^verbatim>\<open>parse_date_filter\<close>\<close>

text \<open>
  \<open>dateparser_parse\<close> stands for \<^verbatim>\<open>dateparser.parse(query)\<close> followed by
  \<^verbatim>\<open>.date()\<close>: the date recovered from the text, or \<open>None\<close>.
\<close>

definition parse_date_filter ::
  "(string \<Rightarrow> date option) \<Rightarrow> date \<Rightarrow> string \<Rightarrow> error + (date \<times> date) option" where
  "parse_date_filter dateparser_parse now query =
     (if contains ''last week'' (lower query) then days_back now 7
      else if contains ''last month'' (lower query) then days_back now 30
      else if contains ''last'' (lower query) \<or> contains ''past'' (lower query) then
        (case re_search query of
           None \<Rightarrow> Inr None
         | Some (digits, u) \<Rightarrow>
             (let duration = int_of_digits digits; unit = lower u
              in if unit = ''days'' then days_back now duration
                 else if unit = ''weeks'' then days_back now (7 * duration)
                 else if unit = ''months'' then days_back now (30 * duration)
                 else Inr None))
      else
        (case dateparser_parse query of
           None \<Rightarrow> Inr None
         | Some parsed_date \<Rightarrow> Inr (Some (parsed_date, now))))"

subsection \<open>Console output\<close>

text \<open>Each \<^verbatim>\<open>print\<close> of the two programs is one message, in the order printed.\<close>

datatype message =
    Collection_loaded string
  | Failed_to_load string error
  | No_article_IDs_to_fetch
  | Milvus_returned_IDs "int list"
  | Milvus_search_error error
  | No_matching_articles_found
  | Schema_mismatch_detected int
  | Dropping_and_recreating
  | Recreated_collection string
  | Connected_to_existing_collection string
  | Created_new_collection string
  | Inserted_articles nat

subsection \<open>Vectors in single precision\<close>

text \<open>
  An embedding is a one-dimensional \<^verbatim>\<open>float32\<close> array; every array the encoder
  returns has the dimension of the model. Its entries are modelled by the real numbers
  they denote, and each rounding of the source is explicit: \<open>rs\<close> rounds a real to
  single precision (the result type of every array operation here, and the type the
  Python \<^verbatim>\<open>float\<close> weight is converted to before the multiplication), \<open>rd\<close>
  rounds a decimal literal to the double it denotes.
\<close>

type_synonym vec = "real list"

definition scale :: "(real \<Rightarrow> real) \<Rightarrow> real \<Rightarrow> vec \<Rightarrow> vec" where
  "scale rs w v = map (\<lambda>x. rs (rs w * x)) v"

definition add_vec :: "(real \<Rightarrow> real) \<Rightarrow> vec \<Rightarrow> vec \<Rightarrow> vec" where
  "add_vec rs u v = map (\<lambda>(x, y). rs (x + y)) (zip u v)"

text \<open>
  The square of the Euclidean norm. With \<^verbatim>\<open>normalize_embeddings=True\<close> the encoder
  divides each vector by its norm, so that this is 1 up to rounding.
\<close>

definition sq_norm :: "vec \<Rightarrow> real" where
  "sq_norm v = sum_list (map (\<lambda>x. x * x) v)"

text \<open>
  \<^verbatim>\<open>weights[0] * title_embedding + weights[1] * abstract_embedding
      + weights[2] * summary_embedding\<close>
\<close>

definition combine_embeddings ::
  "(real \<Rightarrow> real) \<Rightarrow> vec \<Rightarrow> vec \<Rightarrow> vec \<Rightarrow> real list \<Rightarrow> error + vec" where
  "combine_embeddings rs title_embedding abstract_embedding summary_embedding weights =
     (case weights of
        w0 # w1 # w2 # _ \<Rightarrow>
          Inr (add_vec rs
                 (add_vec rs (scale rs w0 title_embedding) (scale rs w1 abstract_embedding))
                 (scale rs w2 summary_embedding))
      | _ \<Rightarrow> Inl IndexError)"

subsection \<open>The Milvus server\<close>

datatype data_type = FLOAT_VECTOR | INT64 | Other_type

record field_schema =
  name :: string
  dtype :: data_type
  params :: "(string \<times> int) list"  \<comment> \<open>the dictionary \<^verbatim>\<open>field.params\<close>\<close>
  is_primary :: bool
  auto_id :: bool

record collection_schema =
  schema_fields :: "field_schema list"
  description :: string

text \<open>
  A collection holds its schema and its entities, in the order of insertion. An entity
  is a primary key with its vector.
\<close>

record collection =
  schema :: collection_schema
  entities :: "(int \<times> vec) list"

type_synonym milvus = "string \<rightharpoonup> collection"

text \<open>The schema built by \<^verbatim>\<open>connect_to_milvus\<close> of \<^verbatim>\<open>milvus_insert.py\<close>.\<close>

definition expected_schema :: collection_schema where
  "expected_schema =
     \<lparr>schema_fields =
        [\<lparr>name = ''embeddings'', dtype = FLOAT_VECTOR, params = [(''dim'', 768)],
          is_primary = False, auto_id = False\<rparr>,
         \<lparr>name = ''id'', dtype = INT64, params = [],
          is_primary = True, auto_id = False\<rparr>],
      description = ''Collection for article embeddings''\<rparr>"

text \<open>\<^verbatim>\<open>Collection(name=collection_name, schema=schema)\<close> for a name not in use.\<close>

definition new_collection :: collection where
  "new_collection = \<lparr>schema = expected_schema, entities = []\<rparr>"

text \<open>
  The loop \<^verbatim>\<open>for field in existing_fields\<close>: the dimension of the first field
  named \<^verbatim>\<open>embeddings\<close> whose \<^verbatim>\<open>dim\<close> is not 768, if there is one.
  \<^verbatim>\<open>field.params["dim"]\<close> raises \<^verbatim>\<open>KeyError\<close> on a field without that key.
\<close>

fun schema_mismatch :: "field_schema list \<Rightarrow> error + int option" where
  "schema_mismatch [] = Inr None"
| "schema_mismatch (field # rest) =
     (if name field = ''embeddings'' then
        (case map_of (params field) ''dim'' of
           None \<Rightarrow> Inl KeyError
         | Some d \<Rightarrow> if d \<noteq> 768 then Inr (Some d) else schema_mismatch rest)
      else schema_mismatch rest)"

text \<open>
  \<^verbatim>\<open>connect_to_milvus\<close> of \<^verbatim>\<open>milvus_insert.py\<close>. The result is what was
  printed, the server afterwards, and the exception if one was raised; the handle
  returned is the collection of that name on the server.
\<close>

definition connect_to_milvus_insert ::
  "milvus \<Rightarrow> string \<Rightarrow> message list \<times> milvus \<times> error option" where
  "connect_to_milvus_insert server collection_name =
     (case server collection_name of
        Some existing \<Rightarrow>
          (case schema_mismatch (schema_fields (schema existing)) of
             Inl e \<Rightarrow> ([], server, Some e)
           | Inr (Some d) \<Rightarrow>
               ([Schema_mismatch_detected d, Dropping_and_recreating,
                 Recreated_collection collection_name],
                server(collection_name \<mapsto> new_collection), None)
           | Inr None \<Rightarrow>
               ([Connected_to_existing_collection collection_name], server, None))
      | None \<Rightarrow>
          ([Created_new_collection collection_name],
           server(collection_name \<mapsto> new_collection), None))"

text \<open>
  \<^verbatim>\<open>collection.insert([embeddings, ids])\<close>: the rows become new entities, after
  the ones already there. \<^verbatim>\<open>insert\<close> does not look for an entity with the same
  primary key. The validation of the columns against the schema by the client library
  is not modelled.
\<close>

definition collection_insert :: "collection \<Rightarrow> vec list \<Rightarrow> int list \<Rightarrow> collection" where
  "collection_insert c embeddings ids = c\<lparr>entities := entities c @ zip ids embeddings\<rparr>"

subsection \<open>\<^verbatim>\<open>insert_weighted_embeddings\<close>\<close>

text \<open>
  An article is a row \<^verbatim>\<open>(id, title, abstract)\<close> of the table \<^verbatim>\<open>articles\<close>;
  \<open>summaries\<close> is the dictionary from article id to summary. A text column that is
  \<^verbatim>\<open>NULL\<close> is \<open>None\<close>. \<open>encode\<close> stands for
  \<^verbatim>\<open>model.encode(text, normalize_embeddings=True)\<close>, which may raise.
\<close>

type_synonym article_row = "int \<times> string \<times> string option"

definition weights :: "(real \<Rightarrow> real) \<Rightarrow> real list" where
  "weights rd = [rd 0.5, rd 0.3, rd 0.2]"

text \<open>The body of the loop over the articles, up to the two \<^verbatim>\<open>append\<close>s.\<close>

definition embed_article ::
  "(string option \<Rightarrow> error + vec) \<Rightarrow> (real \<Rightarrow> real) \<Rightarrow> (real \<Rightarrow> real) \<Rightarrow>
   (int \<rightharpoonup> string option) \<Rightarrow> article_row \<Rightarrow> error + vec" where
  "embed_article encode rd rs summaries article =
     (case article of (article_id, title, abstract) \<Rightarrow>
        (let summary = (case summaries article_id of None \<Rightarrow> Some [] | Some s \<Rightarrow> s)
         in case encode (Some title) of
              Inl e \<Rightarrow> Inl e
            | Inr title_embedding \<Rightarrow>
                (case encode abstract of
                   Inl e \<Rightarrow> Inl e
                 | Inr abstract_embedding \<Rightarrow>
                     (case encode summary of
                        Inl e \<Rightarrow> Inl e
                      | Inr summary_embedding \<Rightarrow>
                          combine_embeddings rs title_embedding abstract_embedding
                            summary_embedding (weights rd)))))"

text \<open>
  The loop, with the two lists it fills. An exception leaves the loop and the
  function.
\<close>

fun embed_loop ::
  "(string option \<Rightarrow> error + vec) \<Rightarrow> (real \<Rightarrow> real) \<Rightarrow> (real \<Rightarrow> real) \<Rightarrow>
   (int \<rightharpoonup> string option) \<Rightarrow> article_row list \<Rightarrow> vec list \<Rightarrow> int list \<Rightarrow>
   error + vec list \<times> int list" where
  "embed_loop encode rd rs summaries [] embeddings ids = Inr (embeddings, ids)"
| "embed_loop encode rd rs summaries (article # rest) embeddings ids =
     (case embed_article encode rd rs summaries article of
        Inl e \<Rightarrow> Inl e
      | Inr combined_embedding \<Rightarrow>
          embed_loop encode rd rs summaries rest
            (embeddings @ [combined_embedding]) (ids @ [fst article]))"

definition insert_weighted_embeddings ::
  "(string option \<Rightarrow> error + vec) \<Rightarrow> (real \<Rightarrow> real) \<Rightarrow> (real \<Rightarrow> real) \<Rightarrow>
   milvus \<Rightarrow> string \<Rightarrow> article_row list \<Rightarrow> (int \<rightharpoonup> string option) \<Rightarrow>
   message list \<times> milvus \<times> error option" where
  "insert_weighted_embeddings encode rd rs server collection_name articles summaries =
     (case connect_to_milvus_insert server collection_name of
        (out, server', Some e) \<Rightarrow> (out, server', Some e)
      | (out, server', None) \<Rightarrow>
          (case embed_loop encode rd rs summaries articles [] [] of
             Inl e \<Rightarrow> (out, server', Some e)
           | Inr (embeddings, ids) \<Rightarrow>
               (case server' collection_name of
                  None \<Rightarrow> (out, server', Some (External ''collection not found''))
                    \<comment> \<open>not reached: after the connection the collection exists\<close>
                | Some c \<Rightarrow>
                    (out @ [Inserted_articles (length ids)],
                     server'(collection_name \<mapsto> collection_insert c embeddings ids),
                     None))))"

subsection \<open>The MySQL tables\<close>

text \<open>
  The tables \<^verbatim>\<open>articles\<close> and \<^verbatim>\<open>article_summaries\<close> as created by
  \<^verbatim>\<open>create_database_and_tables\<close>; a nullable column is an \<open>option\<close>. A table is
  the list of its rows in the order in which the server scans them.
\<close>

record article =
  art_id :: int
  art_title :: string
  art_author :: "string option"
  publication_date :: "date option"
  art_abstract :: "string option"

record article_summary =
  article_id :: "int option"
  sum_summary :: "string option"
  sum_keywords :: "string option"

text \<open>
  A row of the result: \<^verbatim>\<open>(id, title, author, publication_date, abstract, keywords)\<close>.
\<close>

type_synonym result_row =
  "int \<times> string \<times> string option \<times> date option \<times> string option \<times> string option"

definition result_row :: "article \<Rightarrow> string option \<Rightarrow> result_row" where
  "result_row a kw =
     (art_id a, art_title a, art_author a, publication_date a, art_abstract a, kw)"

text \<open>\<^verbatim>\<open>article[0]\<close> and \<^verbatim>\<open>article[3]\<close> of a row of the result.\<close>

definition row_id :: "result_row \<Rightarrow> int" where
  "row_id r = fst r"

definition row_publication_date :: "result_row \<Rightarrow> date option" where
  "row_publication_date r = fst (snd (snd (snd r)))"

text \<open>
  \<^verbatim>\<open>articles LEFT JOIN article_summaries ON articles.id = article_summaries.article_id\<close>:
  one row for each summary of the article, and one row with \<^verbatim>\<open>NULL\<close> keywords for
  an article without a summary.
\<close>

definition left_join :: "article_summary list \<Rightarrow> article \<Rightarrow> result_row list" where
  "left_join summaries a =
     (let matching = filter (\<lambda>s. article_id s = Some (art_id a)) summaries
      in if matching = [] then [result_row a None]
         else map (\<lambda>s. result_row a (sum_keywords s)) matching)"

text \<open>
  \<^verbatim>\<open>AND articles.publication_date BETWEEN %s AND %s\<close>, present only when a range
  is given; \<^verbatim>\<open>BETWEEN\<close> includes both bounds and is not true on \<^verbatim>\<open>NULL\<close>.
\<close>

definition date_condition :: "(date \<times> date) option \<Rightarrow> date option \<Rightarrow> bool" where
  "date_condition date_range d =
     (case date_range of
        None \<Rightarrow> True
      | Some (lo, hi) \<Rightarrow>
          (case d of None \<Rightarrow> False | Some x \<Rightarrow> lo \<le> x \<and> x \<le> hi))"

text \<open>
  The \<^verbatim>\<open>SELECT\<close> statement. It has no \<^verbatim>\<open>ORDER BY\<close>: the rows come in the order
  of the scan of \<^verbatim>\<open>articles\<close>, which does not depend on the order of the ids in
  the \<^verbatim>\<open>IN\<close> list.
\<close>

definition select_articles ::
  "article list \<Rightarrow> article_summary list \<Rightarrow> int list \<Rightarrow> (date \<times> date) option \<Rightarrow>
   result_row list" where
  "select_articles articles summaries ids date_range =
     concat (map (left_join summaries)
       (filter (\<lambda>a. art_id a \<in> set ids \<and> date_condition date_range (publication_date a))
          articles))"

subsection \<open>\<^verbatim>\<open>fetch_filtered_articles_by_ids\<close>\<close>

definition fetch_filtered_articles_by_ids ::
  "article list \<Rightarrow> article_summary list \<Rightarrow> int list \<Rightarrow> (date \<times> date) option \<Rightarrow>
   message list \<times> result_row list" where
  "fetch_filtered_articles_by_ids articles summaries ids date_range =
     (if ids = [] then ([No_article_IDs_to_fetch], [])
      else ([], select_articles articles summaries ids date_range))"

subsection \<open>\<^verbatim>\<open>search_articles\<close>\<close>

text \<open>
  \<^verbatim>\<open>connect_to_milvus\<close> of \<^verbatim>\<open>milvus_search.py\<close>. \<open>load\<close> stands for
  \<^verbatim>\<open>collection.load()\<close>: the exception it raises, if any.
\<close>

definition connect_to_milvus_search ::
  "milvus \<Rightarrow> string \<Rightarrow> (collection \<Rightarrow> error option) \<Rightarrow>
   message list \<times> (error + collection)" where
  "connect_to_milvus_search server collection_name load =
     (case server collection_name of
        None \<Rightarrow> ([], Inl ValueError)
      | Some collection \<Rightarrow>
          (case load collection of
             None \<Rightarrow> ([Collection_loaded collection_name], Inr collection)
           | Some e \<Rightarrow> ([Failed_to_load collection_name e], Inl e)))"

text \<open>
  What \<^verbatim>\<open>search_articles\<close> reads from outside: the encoder on the query, the
  server and the name of the collection, \<^verbatim>\<open>collection.load\<close>, the body of the
  \<^verbatim>\<open>try\<close> block (\<^verbatim>\<open>collection.search\<close> and the list of the ids of its first
  result, in rank order), \<^verbatim>\<open>dateparser\<close>, the clock and the two tables. Reading
  \<^verbatim>\<open>config.ini\<close> and opening the connections to the two servers are taken to
  succeed.
\<close>

record search_env =
  model_encode :: "string \<Rightarrow> error + vec"
  milvus_server :: milvus
  config_collection_name :: string
  collection_load :: "collection \<Rightarrow> error option"
  collection_search :: "collection \<Rightarrow> vec \<Rightarrow> int \<Rightarrow> int \<Rightarrow> error + int list"
  dateparser :: "string \<Rightarrow> date option"
  datetime_now :: date
  mysql_articles :: "article list"
  mysql_article_summaries :: "article_summary list"

definition search_articles ::
  "search_env \<Rightarrow> string \<Rightarrow> int \<Rightarrow> int \<Rightarrow> message list \<times> (error + result_row list)" where
  "search_articles env query nprobe limit =
     (case model_encode env query of
        Inl e \<Rightarrow> ([], Inl e)
      | Inr query_embedding \<Rightarrow>
          (case connect_to_milvus_search (milvus_server env) (config_collection_name env)
                  (collection_load env) of
             (out, Inl e) \<Rightarrow> (out, Inl e)
           | (out, Inr collection) \<Rightarrow>
               (case collection_search env collection query_embedding nprobe limit of
                  Inl e \<Rightarrow> (out @ [Milvus_search_error e], Inr [])
                | Inr ids \<Rightarrow>
                    (case parse_date_filter (dateparser env) (datetime_now env) query of
                       Inl e \<Rightarrow> (out @ [Milvus_returned_IDs ids], Inl e)
                     | Inr date_range \<Rightarrow>
                         (case fetch_filtered_articles_by_ids (mysql_articles env)
                                 (mysql_article_summaries env) ids date_range of
                            (out', articles) \<Rightarrow>
                              (out @ [Milvus_returned_IDs ids] @ out' @
                                 (if articles = [] then [No_matching_articles_found] else []),
                               Inr articles))))))"

section \<open>Sample inputs\<close>

text \<open>
  Concrete inputs at which the theorems below are instantiated. Today is 4 November
  2026 (ordinal 739924); the sample date parser recovers 30 October 2026 from
  \<^verbatim>\<open>last friday\<close> and 12 May 2020 from \<^verbatim>\<open>since 12 May 2020\<close>.
\<close>

definition sample_dateparser :: "string \<Rightarrow> date option" where
  "sample_dateparser q =
     (if q = ''last friday'' then Some 739919
      else if q = ''since 12 May 2020'' then Some 737557
      else None)"

text \<open>
  Three articles in the order of the table: article 2 of 11 October 2026 with a
  summary, article 5 without a date and without a summary, article 9 of today with a
  summary.
\<close>

definition sample_articles :: "article list" where
  "sample_articles =
     [\<lparr>art_id = 2, art_title = ''Tumour heterogeneity'', art_author = Some ''A. Rao'',
       publication_date = Some 739900, art_abstract = Some ''Clonal evolution''\<rparr>,
      \<lparr>art_id = 5, art_title = ''Checkpoint blockade'', art_author = None,
       publication_date = None, art_abstract = Some ''Immune escape''\<rparr>,
      \<lparr>art_id = 9, art_title = ''Liquid biopsy'', art_author = Some ''B. Chen'',
       publication_date = Some 739924, art_abstract = None\<rparr>]"

definition sample_summaries :: "article_summary list" where
  "sample_summaries =
     [\<lparr>article_id = Some 2, sum_summary = Some ''Clonal evolution'',
       sum_keywords = Some ''clonal, evolution''\<rparr>,
      \<lparr>article_id = Some 9, sum_summary = None, sum_keywords = Some ''biopsy''\<rparr>]"

text \<open>
  A server with the collection \<^verbatim>\<open>articles\<close> and one without it; an encoder that
  returns the first unit vector of dimension 768; a vector search that ranks the
  articles 5, 2, 9; a load and a search that fail.
\<close>

definition sample_server :: milvus where
  "sample_server n = (if n = ''articles'' then Some new_collection else None)"

definition empty_server :: milvus where
  "empty_server n = None"

definition sample_encode :: "string \<Rightarrow> error + vec" where
  "sample_encode q = Inr (1 # replicate 767 0)"

definition sample_load :: "collection \<Rightarrow> error option" where
  "sample_load c = None"

definition failing_load :: "collection \<Rightarrow> error option" where
  "failing_load c = Some (External ''load failed'')"

definition sample_search :: "collection \<Rightarrow> vec \<Rightarrow> int \<Rightarrow> int \<Rightarrow> error + int list" where
  "sample_search c v nprobe limit = Inr [5, 2, 9]"

definition failing_search :: "collection \<Rightarrow> vec \<Rightarrow> int \<Rightarrow> int \<Rightarrow> error + int list" where
  "failing_search c v nprobe limit = Inl (External ''search failed'')"

definition sample_env :: search_env where
  "sample_env =
     \<lparr>model_encode = sample_encode, milvus_server = sample_server,
      config_collection_name = ''articles'', collection_load = sample_load,
      collection_search = sample_search, dateparser = sample_dateparser,
      datetime_now = 739924, mysql_articles = sample_articles,
      mysql_article_summaries = sample_summaries\<rparr>"

text \<open>
  For the indexer: a batch of two articles, the first with a summary; an encoder that
  returns the first unit vector of dimension 768 on every text, and one that fails on
  the title of the first article; arithmetic without rounding error; the sample server
  after one run of the indexer on the batch; a server whose collection was declared
  with dimension 512 and holds one entity.
\<close>

definition sample_batch :: "article_row list" where
  "sample_batch =
     [(1, ''Tumour heterogeneity'', Some ''Clonal evolution''),
      (2, ''Liquid biopsy'', None)]"

definition sample_summary_dict :: "int \<rightharpoonup> string option" where
  "sample_summary_dict i = (if i = 1 then Some (Some ''Clonal evolution'') else None)"

definition unit_encode :: "string option \<Rightarrow> error + vec" where
  "unit_encode t = Inr (1 # replicate 767 0)"

definition faulty_encode :: "string option \<Rightarrow> error + vec" where
  "faulty_encode t =
     (if t = Some ''Tumour heterogeneity'' then Inl (External ''encoding fault'')
      else Inr (1 # replicate 767 0))"

definition exact :: "real \<Rightarrow> real" where
  "exact x = x"

definition once_indexed_server :: milvus where
  "once_indexed_server =
     fst (snd (insert_weighted_embeddings unit_encode exact exact sample_server ''articles''
       sample_batch sample_summary_dict))"





section \<open>Date-range extraction\<close>

lemma days_back_ok:
  "0 \<le> d \<Longrightarrow> d < now \<Longrightarrow> now \<le> 3652059 \<Longrightarrow> days_back now d = Inr (Some (now - d, now))"
  by (simp add: days_back_def timedelta_def date_minus_def)

lemma days_back_end: "days_back now d = Inr (Some (s, e)) \<Longrightarrow> e = now"
  by (auto simp: days_back_def split: sum.splits)

lemma prefix_contains: "prefix sub s \<Longrightarrow> contains sub s"
  by (cases s) auto

lemma contains_shorter: "prefix a b \<Longrightarrow> contains b s \<Longrightarrow> contains a s"
proof (induction s)
  case Nil
  then show ?case by simp
next
  case (Cons c cs)
  from Cons.prems(2) have "prefix b (c # cs) \<or> contains b cs" by simp
  then show ?case
  proof
    assume "prefix b (c # cs)"
    with Cons.prems(1) have "prefix a (c # cs)" by (rule prefix_order.trans)
    then show ?thesis by simp
  next
    assume "contains b cs"
    with Cons have "contains a cs" by simp
    then show ?thesis by simp
  qed
qed

lemma lower_take: "lower (take n s) = take n (lower s)"
  by (simp add: lower_def take_map)

lemma match_here_contains:
  assumes "match_here s = Some m"
  shows "contains ''last'' (lower s) \<or> contains ''past'' (lower s)"
proof -
  from assms have "lower (take 4 s) = ''last'' \<or> lower (take 4 s) = ''past''"
    by (simp add: match_here_def split: if_splits)
  then have "take 4 (lower s) = ''last'' \<or> take 4 (lower s) = ''past''"
    by (simp add: lower_take)
  then have "prefix ''last'' (lower s) \<or> prefix ''past'' (lower s)"
    by (metis take_is_prefix)
  then show ?thesis by (blast intro: prefix_contains)
qed

lemma re_search_contains:
  "re_search s = Some m \<Longrightarrow> contains ''last'' (lower s) \<or> contains ''past'' (lower s)"
proof (induction s)
  case Nil
  then show ?case by (simp add: match_here_def lower_def)
next
  case (Cons c cs)
  show ?case
  proof (cases "match_here (c # cs)")
    case (Some m')
    then show ?thesis by (rule match_here_contains)
  next
    case None
    with Cons.prems have "re_search cs = Some m" by simp
    from Cons.IH [OF this] show ?thesis by (auto simp: lower_def)
  qed
qed

text \<open>
  C2, as the code has it. A query that contains neither \<^verbatim>\<open>last\<close> nor
  \<^verbatim>\<open>past\<close> in any letter case has none of the two phrases and no match of the
  numeric pattern, and goes as a whole to the free-form date parser. A query that
  contains one of the two words, without the two phrases and without a match of the
  numeric pattern, gets no range: the free-form parser is not consulted.
\<close>

theorem free_form_parsing_guard:
  "(\<not> contains ''last'' (lower q) \<and> \<not> contains ''past'' (lower q) \<longrightarrow>
      \<not> contains ''last week'' (lower q) \<and> \<not> contains ''last month'' (lower q)
      \<and> re_search q = None
      \<and> parse_date_filter dp now q =
          (case dp q of None \<Rightarrow> Inr None | Some d \<Rightarrow> Inr (Some (d, now))))
   \<and> ((contains ''last'' (lower q) \<or> contains ''past'' (lower q))
        \<and> \<not> contains ''last week'' (lower q) \<and> \<not> contains ''last month'' (lower q)
        \<and> re_search q = None \<longrightarrow>
      parse_date_filter dp now q = Inr None)"
proof (intro conjI impI)
  assume h: "\<not> contains ''last'' (lower q) \<and> \<not> contains ''past'' (lower q)"
  have p1: "prefix ''last'' ''last week''" and p2: "prefix ''last'' ''last month''"
    by simp_all
  from h contains_shorter [OF p1] show w: "\<not> contains ''last week'' (lower q)" by blast
  from h contains_shorter [OF p2] show m: "\<not> contains ''last month'' (lower q)" by blast
  from h re_search_contains [of q] show "re_search q = None"
    by (cases "re_search q") auto
  from h w m show "parse_date_filter dp now q =
          (case dp q of None \<Rightarrow> Inr None | Some d \<Rightarrow> Inr (Some (d, now)))"
    by (simp add: parse_date_filter_def)
next
  assume "(contains ''last'' (lower q) \<or> contains ''past'' (lower q))
        \<and> \<not> contains ''last week'' (lower q) \<and> \<not> contains ''last month'' (lower q)
        \<and> re_search q = None"
  then show "parse_date_filter dp now q = Inr None"
    by (simp add: parse_date_filter_def)
qed

theorem free_form_parsing_guard_witness:
  "\<not> contains ''last'' (lower ''since 12 May 2020'')
   \<and> \<not> contains ''past'' (lower ''since 12 May 2020'')
   \<and> parse_date_filter sample_dateparser 739924 ''since 12 May 2020''
       = Inr (Some (737557, 739924))
   \<and> contains ''last'' (lower ''last friday'')
   \<and> \<not> contains ''last week'' (lower ''last friday'')
   \<and> \<not> contains ''last month'' (lower ''last friday'')
   \<and> re_search ''last friday'' = None
   \<and> parse_date_filter sample_dateparser 739924 ''last friday'' = Inr None"
proof -
  have h1: "\<not> contains ''last'' (lower ''since 12 May 2020'')" by code_simp
  have h2: "\<not> contains ''past'' (lower ''since 12 May 2020'')" by code_simp
  have h3: "sample_dateparser ''since 12 May 2020'' = Some 737557" by code_simp
  have g1: "\<not> contains ''last week'' (lower ''last friday'')" by code_simp
  have g2: "\<not> contains ''last month'' (lower ''last friday'')" by code_simp
  have g3: "re_search ''last friday'' = None" by code_simp
  have g4: "contains ''last'' (lower ''last friday'')" by code_simp
  from free_form_parsing_guard [of "''since 12 May 2020''" sample_dateparser 739924] h1 h2 h3
  have a: "parse_date_filter sample_dateparser 739924 ''since 12 May 2020''
             = Inr (Some (737557, 739924))"
    by (simp del: contains.simps re_search.simps)
  from free_form_parsing_guard [of "''last friday''" sample_dateparser 739924] g1 g2 g3 g4
  have b: "parse_date_filter sample_dateparser 739924 ''last friday'' = Inr None"
    by (simp del: contains.simps re_search.simps)
  from a b h1 h2 g1 g2 g3 g4 show ?thesis by blast
qed

text \<open>
  C2 as stated fails: \<^verbatim>\<open>last friday\<close> contains no \<^verbatim>\<open>last week\<close>, no
  \<^verbatim>\<open>last month\<close> and no match of the numeric pattern, the free-form parser would
  recover a date from it, and the result is still no range.
\<close>

theorem free_form_parsing_counterexample:
  "\<not> contains ''last week'' (lower ''last friday'')
   \<and> \<not> contains ''last month'' (lower ''last friday'')
   \<and> re_search ''last friday'' = None
   \<and> sample_dateparser ''last friday'' = Some 739919
   \<and> parse_date_filter sample_dateparser 739924 ''last friday'' = Inr None"
  by code_simp

text \<open>
  C8. Precedence of the rules, for a clock \<open>now\<close> within the representable dates:
  a query that contains \<^verbatim>\<open>last week\<close> in any letter case yields the last seven days
  whatever else it contains; \<^verbatim>\<open>past 2 months\<close> yields the last sixty days; a query
  without the two phrases, without a match of the numeric pattern and without a date
  for the free-form parser yields no range.
\<close>

theorem date_range_precedence:
  "(contains ''last week'' (lower q) \<and> 7 < now \<and> now \<le> 3652059
      \<longrightarrow> parse_date_filter dp now q = Inr (Some (now - 7, now)))
   \<and> (60 < now \<and> now \<le> 3652059
      \<longrightarrow> parse_date_filter dp now ''past 2 months'' = Inr (Some (now - 60, now)))
   \<and> (\<not> contains ''last week'' (lower q') \<and> \<not> contains ''last month'' (lower q')
        \<and> re_search q' = None \<and> dp q' = None
      \<longrightarrow> parse_date_filter dp now q' = Inr None)"
proof (intro conjI impI)
  assume "contains ''last week'' (lower q) \<and> 7 < now \<and> now \<le> 3652059"
  then show "parse_date_filter dp now q = Inr (Some (now - 7, now))"
    by (simp add: parse_date_filter_def days_back_ok)
next
  assume h: "60 < now \<and> now \<le> 3652059"
  have c1: "\<not> contains ''last week'' (lower ''past 2 months'')" by code_simp
  have c2: "\<not> contains ''last month'' (lower ''past 2 months'')" by code_simp
  have c3: "contains ''past'' (lower ''past 2 months'')" by code_simp
  have c4: "re_search ''past 2 months'' = Some (''2'', ''months'')" by code_simp
  have c5: "int_of_digits ''2'' = 2" by code_simp
  have c6: "lower ''months'' = ''months''" by code_simp
  have "parse_date_filter dp now ''past 2 months'' = days_back now 60"
    unfolding parse_date_filter_def using c1 c2 c3
    by (simp add: c4 c5 c6 del: contains.simps re_search.simps)
  with h show "parse_date_filter dp now ''past 2 months'' = Inr (Some (now - 60, now))"
    by (simp add: days_back_ok)
next
  assume "\<not> contains ''last week'' (lower q') \<and> \<not> contains ''last month'' (lower q')
        \<and> re_search q' = None \<and> dp q' = None"
  then show "parse_date_filter dp now q' = Inr None"
    by (simp add: parse_date_filter_def)
qed

theorem date_range_precedence_witness:
  "contains ''last week'' (lower ''last 3 days of Last Week'')
   \<and> parse_date_filter sample_dateparser 739924 ''last 3 days of Last Week''
       = Inr (Some (739917, 739924))
   \<and> parse_date_filter sample_dateparser 739924 ''past 2 months''
       = Inr (Some (739864, 739924))
   \<and> \<not> contains ''last week'' (lower ''tumour immunotherapy'')
   \<and> \<not> contains ''last month'' (lower ''tumour immunotherapy'')
   \<and> re_search ''tumour immunotherapy'' = None
   \<and> sample_dateparser ''tumour immunotherapy'' = None
   \<and> parse_date_filter sample_dateparser 739924 ''tumour immunotherapy'' = Inr None"
proof -
  have h1: "contains ''last week'' (lower ''last 3 days of Last Week'')" by code_simp
  have h2: "\<not> contains ''last week'' (lower ''tumour immunotherapy'')" by code_simp
  have h3: "\<not> contains ''last month'' (lower ''tumour immunotherapy'')" by code_simp
  have h4: "re_search ''tumour immunotherapy'' = None" by code_simp
  have h5: "sample_dateparser ''tumour immunotherapy'' = None" by code_simp
  show ?thesis
    using date_range_precedence [of "''last 3 days of Last Week''" 739924 sample_dateparser
        "''tumour immunotherapy''"] h1 h2 h3 h4 h5
    by simp
qed

text \<open>
  C10. Whenever \<^verbatim>\<open>parse_date_filter\<close> returns a range, the range ends today:
  no query yields a window that ends before or after the current date.
\<close>

theorem range_ends_today:
  "parse_date_filter dp now q = Inr (Some (s, e)) \<Longrightarrow> e = now"
  by (auto simp: parse_date_filter_def Let_def dest: days_back_end
      split: if_splits option.splits prod.splits)

theorem range_ends_today_witness:
  "parse_date_filter sample_dateparser 739924 ''since 12 May 2020''
     = Inr (Some (737557, 739924))
   \<and> (739924 :: int) = 739924"
proof -
  have h: "parse_date_filter sample_dateparser 739924 ''since 12 May 2020''
             = Inr (Some (737557, 739924))"
    by code_simp
  from range_ends_today [OF h] h show ?thesis by simp
qed

section \<open>Relational fetch and search\<close>

lemma fetch_select:
  "snd (fetch_filtered_articles_by_ids A S ids dr) = select_articles A S ids dr"
  by (simp add: fetch_filtered_articles_by_ids_def select_articles_def)

lemma left_join_row:
  "r \<in> set (left_join S a) \<Longrightarrow> \<exists>kw. r = result_row a kw"
  by (auto simp: left_join_def Let_def split: if_splits)

lemma left_join_nonempty: "\<exists>kw. result_row a kw \<in> set (left_join S a)"
proof (cases "filter (\<lambda>s. article_id s = Some (art_id a)) S")
  case Nil
  then show ?thesis by (auto simp: left_join_def)
next
  case (Cons s ss)
  then have "result_row a (sum_keywords s) \<in> set (left_join S a)"
    by (simp add: left_join_def)
  then show ?thesis ..
qed

lemma select_row:
  "r \<in> set (select_articles A S ids dr) \<Longrightarrow>
   \<exists>a kw. a \<in> set A \<and> r = result_row a kw \<and> art_id a \<in> set ids
     \<and> date_condition dr (publication_date a)"
  by (auto simp: select_articles_def dest: left_join_row)

lemma select_complete:
  "a \<in> set A \<Longrightarrow> art_id a \<in> set ids \<Longrightarrow> date_condition dr (publication_date a) \<Longrightarrow>
   \<exists>kw. result_row a kw \<in> set (select_articles A S ids dr)"
  using left_join_nonempty [of a S] by (auto simp: select_articles_def)

lemma row_of_result_row [simp]:
  "row_id (result_row a kw) = art_id a"
  "row_publication_date (result_row a kw) = publication_date a"
  by (simp_all add: row_id_def row_publication_date_def result_row_def)

text \<open>
  C9. With a date range, every row of the relational fetch has a publication date, and
  the date lies between the two bounds, bounds included: an article without a date is
  never returned. Every article with a requested id and a date within the bounds is
  returned. Without a date range, every article with a requested id is returned, those
  without a date too.
\<close>

theorem fetch_date_filter:
  "(\<forall>r \<in> set (snd (fetch_filtered_articles_by_ids A S ids (Some (lo, hi)))).
      \<exists>d. row_publication_date r = Some d \<and> lo \<le> d \<and> d \<le> hi)
   \<and> (\<forall>a \<in> set A. art_id a \<in> set ids
         \<and> (\<exists>d. publication_date a = Some d \<and> lo \<le> d \<and> d \<le> hi) \<longrightarrow>
         (\<exists>kw. result_row a kw \<in> set (snd (fetch_filtered_articles_by_ids A S ids (Some (lo, hi))))))
   \<and> (\<forall>a \<in> set A. art_id a \<in> set ids \<longrightarrow>
         (\<exists>kw. result_row a kw \<in> set (snd (fetch_filtered_articles_by_ids A S ids None))))"
proof (intro conjI ballI impI)
  fix r assume "r \<in> set (snd (fetch_filtered_articles_by_ids A S ids (Some (lo, hi))))"
  then obtain a kw where "r = result_row a kw" "date_condition (Some (lo, hi)) (publication_date a)"
    unfolding fetch_select using select_row by blast
  then show "\<exists>d. row_publication_date r = Some d \<and> lo \<le> d \<and> d \<le> hi"
    by (auto simp: date_condition_def split: option.splits)
next
  fix a assume "a \<in> set A"
    and "art_id a \<in> set ids \<and> (\<exists>d. publication_date a = Some d \<and> lo \<le> d \<and> d \<le> hi)"
  then show "\<exists>kw. result_row a kw \<in> set (snd (fetch_filtered_articles_by_ids A S ids (Some (lo, hi))))"
    unfolding fetch_select by (intro select_complete) (auto simp: date_condition_def)
next
  fix a assume "a \<in> set A" and "art_id a \<in> set ids"
  then show "\<exists>kw. result_row a kw \<in> set (snd (fetch_filtered_articles_by_ids A S ids None))"
    unfolding fetch_select by (intro select_complete) (auto simp: date_condition_def)
qed

theorem fetch_date_filter_witness:
  "map row_id (snd (fetch_filtered_articles_by_ids sample_articles sample_summaries [5, 2, 9]
       (Some (739900, 739924)))) = [2, 9]
   \<and> map row_publication_date (snd (fetch_filtered_articles_by_ids sample_articles
       sample_summaries [5, 2, 9] (Some (739900, 739924)))) = [Some 739900, Some 739924]
   \<and> map row_id (snd (fetch_filtered_articles_by_ids sample_articles sample_summaries [5, 2, 9]
       None)) = [2, 5, 9]"
proof -
  have a: "snd (fetch_filtered_articles_by_ids sample_articles sample_summaries [5, 2, 9]
       (Some (739900, 739924))) =
     [(2, ''Tumour heterogeneity'', Some ''A. Rao'', Some 739900,
        Some ''Clonal evolution'', Some ''clonal, evolution''),
       (9, ''Liquid biopsy'', Some ''B. Chen'', Some 739924, None,
        Some ''biopsy'')]" by code_simp
  have b: "snd (fetch_filtered_articles_by_ids sample_articles sample_summaries [5, 2, 9] None) =
     [(2, ''Tumour heterogeneity'', Some ''A. Rao'', Some 739900,
        Some ''Clonal evolution'', Some ''clonal, evolution''),
       (5, ''Checkpoint blockade'', None, None, Some ''Immune escape'', None),
       (9, ''Liquid biopsy'', Some ''B. Chen'', Some 739924, None,
        Some ''biopsy'')]" by code_simp
  show ?thesis
    using fetch_date_filter [of sample_articles sample_summaries "[5, 2, 9]" 739900 739924]
    by (simp add: a b row_id_def row_publication_date_def)
qed


lemma select_rows_ok:
  "r \<in> set (select_articles A S ids dr) \<Longrightarrow>
   row_id r \<in> set ids \<and> date_condition dr (row_publication_date r)"
  by (auto dest!: select_row)

lemma select_ids_set:
  "set ids' = set ids \<Longrightarrow> select_articles A S ids' dr = select_articles A S ids dr"
  by (simp add: select_articles_def)

text \<open>
  C1, as the code has it. When the vector search returns the id list \<open>ids\<close>,
  \<^verbatim>\<open>search_articles\<close> returns the rows of the relational fetch as they are, in
  the row order of the fetch. Every row has an id of the list and passes the date
  filter, and the result depends on the list only through its set of ids: the rank
  order plays no role.
\<close>

theorem search_returns_fetch_order:
  assumes "model_encode env query = Inr v"
    and "milvus_server env (config_collection_name env) = Some c"
    and "collection_load env c = None"
    and "collection_search env c v nprobe limit = Inr ids"
    and "parse_date_filter (dateparser env) (datetime_now env) query = Inr dr"
  shows "snd (search_articles env query nprobe limit) =
           Inr (snd (fetch_filtered_articles_by_ids (mysql_articles env)
                  (mysql_article_summaries env) ids dr))
     \<and> (\<forall>r \<in> set (snd (fetch_filtered_articles_by_ids (mysql_articles env)
                  (mysql_article_summaries env) ids dr)).
           row_id r \<in> set ids \<and> date_condition dr (row_publication_date r))
     \<and> (\<forall>ids'. set ids' = set ids \<longrightarrow>
           snd (fetch_filtered_articles_by_ids (mysql_articles env)
                  (mysql_article_summaries env) ids' dr) =
           snd (fetch_filtered_articles_by_ids (mysql_articles env)
                  (mysql_article_summaries env) ids dr))"
proof -
  let ?rows = "snd (fetch_filtered_articles_by_ids (mysql_articles env)
                  (mysql_article_summaries env) ids dr)"
  have a: "snd (search_articles env query nprobe limit) = Inr ?rows"
    using assms
    by (simp add: search_articles_def connect_to_milvus_search_def split: prod.splits)
  have b: "\<forall>r \<in> set ?rows. row_id r \<in> set ids \<and> date_condition dr (row_publication_date r)"
    unfolding fetch_select using select_rows_ok by blast
  have c: "\<forall>ids'. set ids' = set ids \<longrightarrow>
           snd (fetch_filtered_articles_by_ids (mysql_articles env)
                  (mysql_article_summaries env) ids' dr) = ?rows"
    unfolding fetch_select using select_ids_set by blast
  from a b c show ?thesis by blast
qed

text \<open>
  C1 as stated fails: the vector search ranks the articles 5, 2, 9, all three exist and
  no date range applies, and the result has them in the order of the table, 2, 5, 9.
\<close>

theorem rank_order_counterexample:
  "collection_search sample_env new_collection (1 # replicate 767 0) 20 10 = Inr [5, 2, 9]
   \<and> search_articles sample_env ''tumour immunotherapy'' 20 10 =
       ([Collection_loaded ''articles'', Milvus_returned_IDs [5, 2, 9]],
        Inr [(2, ''Tumour heterogeneity'', Some ''A. Rao'', Some 739900,
                Some ''Clonal evolution'', Some ''clonal, evolution''),
             (5, ''Checkpoint blockade'', None, None, Some ''Immune escape'', None),
             (9, ''Liquid biopsy'', Some ''B. Chen'', Some 739924, None, Some ''biopsy'')])"
  by code_simp

theorem search_returns_fetch_order_witness:
  "model_encode sample_env ''tumour immunotherapy'' = Inr (1 # replicate 767 0)
   \<and> milvus_server sample_env (config_collection_name sample_env) = Some new_collection
   \<and> collection_load sample_env new_collection = None
   \<and> collection_search sample_env new_collection (1 # replicate 767 0) 20 10 = Inr [5, 2, 9]
   \<and> parse_date_filter (dateparser sample_env) (datetime_now sample_env)
        ''tumour immunotherapy'' = Inr None
   \<and> snd (search_articles sample_env ''tumour immunotherapy'' 20 10) =
        Inr (snd (fetch_filtered_articles_by_ids sample_articles sample_summaries [5, 2, 9] None))
   \<and> snd (fetch_filtered_articles_by_ids sample_articles sample_summaries [2, 5, 9] None) =
        snd (fetch_filtered_articles_by_ids sample_articles sample_summaries [5, 2, 9] None)"
proof -
  have h1: "model_encode sample_env ''tumour immunotherapy'' = Inr (1 # replicate 767 0)"
    by (simp add: sample_env_def sample_encode_def)
  have h2: "milvus_server sample_env (config_collection_name sample_env) = Some new_collection"
    by (simp add: sample_env_def sample_server_def)
  have h3: "collection_load sample_env new_collection = None"
    by (simp add: sample_env_def sample_load_def)
  have h4: "collection_search sample_env new_collection (1 # replicate 767 0) 20 10 = Inr [5, 2, 9]"
    by (simp add: sample_env_def sample_search_def)
  have h5: "parse_date_filter (dateparser sample_env) (datetime_now sample_env)
        ''tumour immunotherapy'' = Inr None"
    by code_simp
  have m: "mysql_articles sample_env = sample_articles"
    "mysql_article_summaries sample_env = sample_summaries"
    by (simp_all add: sample_env_def)
  have s: "set [2, 5, 9 :: int] = set [5, 2, 9]" by auto
  from search_returns_fetch_order [OF h1 h2 h3 h4 h5] s
  have "snd (search_articles sample_env ''tumour immunotherapy'' 20 10) =
        Inr (snd (fetch_filtered_articles_by_ids sample_articles sample_summaries [5, 2, 9] None))
   \<and> snd (fetch_filtered_articles_by_ids sample_articles sample_summaries [2, 5, 9] None) =
        snd (fetch_filtered_articles_by_ids sample_articles sample_summaries [5, 2, 9] None)"
    unfolding m by blast
  with h1 h2 h3 h4 h5 show ?thesis by blast
qed

text \<open>
  C7, as the code has it. Once the query is embedded: a missing collection raises
  \<^verbatim>\<open>ValueError\<close> to the caller; a failed load prints a message and raises the
  exception of the load again; a fault of the vector search itself prints a warning
  and gives the empty result list.
\<close>

theorem search_fault_handling:
  "model_encode env query = Inr v \<longrightarrow>
     (milvus_server env (config_collection_name env) = None \<longrightarrow>
        search_articles env query nprobe limit = ([], Inl ValueError))
   \<and> (milvus_server env (config_collection_name env) = Some c \<and> collection_load env c = Some e
        \<longrightarrow> search_articles env query nprobe limit =
              ([Failed_to_load (config_collection_name env) e], Inl e))
   \<and> (milvus_server env (config_collection_name env) = Some c \<and> collection_load env c = None
        \<and> collection_search env c v nprobe limit = Inl e
        \<longrightarrow> search_articles env query nprobe limit =
              ([Collection_loaded (config_collection_name env), Milvus_search_error e], Inr []))"
  by (simp add: search_articles_def connect_to_milvus_search_def)

text \<open>
  C7 as stated fails: with the collection missing, and with a load that fails, the
  outcome is an exception and not an empty list.
\<close>

theorem index_unavailable_counterexample:
  "milvus_server (sample_env\<lparr>milvus_server := empty_server\<rparr>) ''articles'' = None
   \<and> search_articles (sample_env\<lparr>milvus_server := empty_server\<rparr>) ''tumour immunotherapy'' 20 10
       = ([], Inl ValueError)
   \<and> collection_load (sample_env\<lparr>collection_load := failing_load\<rparr>) new_collection
       = Some (External ''load failed'')
   \<and> search_articles (sample_env\<lparr>collection_load := failing_load\<rparr>) ''tumour immunotherapy'' 20 10
       = ([Failed_to_load ''articles'' (External ''load failed'')], Inl (External ''load failed''))"
  by code_simp

theorem search_fault_handling_witness:
  "search_articles (sample_env\<lparr>milvus_server := empty_server\<rparr>) ''tumour immunotherapy'' 20 10
       = ([], Inl ValueError)
   \<and> search_articles (sample_env\<lparr>collection_load := failing_load\<rparr>) ''tumour immunotherapy'' 20 10
       = ([Failed_to_load ''articles'' (External ''load failed'')], Inl (External ''load failed''))
   \<and> search_articles (sample_env\<lparr>collection_search := failing_search\<rparr>) ''tumour immunotherapy'' 20 10
       = ([Collection_loaded ''articles'', Milvus_search_error (External ''search failed'')], Inr [])"
proof -
  let ?v = "1 # replicate 767 (0::real)"
  let ?q = "''tumour immunotherapy''"
  have a: "search_articles (sample_env\<lparr>milvus_server := empty_server\<rparr>) ?q 20 10
       = ([], Inl ValueError)"
    using search_fault_handling [where env = "sample_env\<lparr>milvus_server := empty_server\<rparr>" and query = ?q
        and v = ?v and c = new_collection and e = "External ''load failed''" and nprobe = 20 and limit = 10]
    by (simp add: sample_env_def sample_encode_def empty_server_def)
  have b: "search_articles (sample_env\<lparr>collection_load := failing_load\<rparr>) ?q 20 10
       = ([Failed_to_load ''articles'' (External ''load failed'')], Inl (External ''load failed''))"
    using search_fault_handling [where env = "sample_env\<lparr>collection_load := failing_load\<rparr>" and query = ?q
        and v = ?v and c = new_collection and e = "External ''load failed''" and nprobe = 20 and limit = 10]
    by (simp add: sample_env_def sample_encode_def sample_server_def failing_load_def)
  have c: "search_articles (sample_env\<lparr>collection_search := failing_search\<rparr>) ?q 20 10
       = ([Collection_loaded ''articles'', Milvus_search_error (External ''search failed'')], Inr [])"
    using search_fault_handling [where env = "sample_env\<lparr>collection_search := failing_search\<rparr>" and query = ?q
        and v = ?v and c = new_collection and e = "External ''search failed''" and nprobe = 20 and limit = 10]
    by (simp add: sample_env_def sample_encode_def sample_server_def sample_load_def
        failing_search_def)
  from a b c show ?thesis by blast
qed

section \<open>Collection lifecycle and indexing\<close>

lemma schema_mismatch_none:
  "filter (\<lambda>f. name f = ''embeddings'') fs = [] \<Longrightarrow> schema_mismatch fs = Inr None"
  by (induction fs) (auto split: if_splits)

lemma schema_mismatch_single:
  "filter (\<lambda>f. name f = ''embeddings'') fs = [f] \<Longrightarrow> map_of (params f) ''dim'' = Some d \<Longrightarrow>
   schema_mismatch fs = (if d \<noteq> 768 then Inr (Some d) else Inr None)"
proof (induction fs)
  case Nil
  then show ?case by simp
next
  case (Cons x xs)
  show ?case
  proof (cases "name x = ''embeddings''")
    case True
    with Cons.prems have "x = f" and "filter (\<lambda>f. name f = ''embeddings'') xs = []"
      by simp_all
    with True Cons.prems show ?thesis
      by (simp add: schema_mismatch_none)
  next
    case False
    with Cons show ?thesis by simp
  qed
qed


lemma connect_match:
  "server cname = Some c \<Longrightarrow> schema_mismatch (schema_fields (schema c)) = Inr None \<Longrightarrow>
   connect_to_milvus_insert server cname =
     ([Connected_to_existing_collection cname], server, None)"
  by (simp add: connect_to_milvus_insert_def)


lemma insert_after_connect:
  "connect_to_milvus_insert server cname = (out, server', None) \<Longrightarrow>
   snd (insert_weighted_embeddings enc rd rs server cname articles summaries) =
   (case embed_loop enc rd rs summaries articles [] [] of
      Inl e \<Rightarrow> (server', Some e)
    | Inr (embeddings, ids) \<Rightarrow>
        (case server' cname of
           None \<Rightarrow> (server', Some (External ''collection not found''))
         | Some c \<Rightarrow> (server'(cname \<mapsto> collection_insert c embeddings ids), None)))"
  by (simp add: insert_weighted_embeddings_def split: sum.splits prod.splits option.splits)

lemma embeddings_field:
  "filter (\<lambda>f. name f = ''embeddings'') (schema_fields (schema new_collection)) =
     [\<lparr>name = ''embeddings'', dtype = FLOAT_VECTOR, params = [(''dim'', 768)],
       is_primary = False, auto_id = False\<rparr>]"
  by (simp add: new_collection_def expected_schema_def)

lemma embed_loop_fault:
  "a \<in> set articles \<Longrightarrow> embed_article enc rd rs sm a = Inl e0 \<Longrightarrow>
   \<exists>e. embed_loop enc rd rs sm articles E I = Inl e"
proof (induction articles arbitrary: E I)
  case Nil
  then show ?case by simp
next
  case (Cons x xs)
  then show ?case
    by (cases "embed_article enc rd rs sm x") auto
qed

lemma embed_loop_result:
  "embed_loop enc rd rs sm articles E I = Inr (E', I') \<Longrightarrow>
   E' = E @ map (\<lambda>a. projr (embed_article enc rd rs sm a)) articles
   \<and> I' = I @ map fst articles
   \<and> (\<forall>a \<in> set articles. \<not> isl (embed_article enc rd rs sm a))"
proof (induction articles arbitrary: E I)
  case Nil
  then show ?case by simp
next
  case (Cons x xs)
  show ?case
  proof (cases "embed_article enc rd rs sm x")
    case (Inl e)
    with Cons.prems show ?thesis by simp
  next
    case (Inr v)
    with Cons.prems have "embed_loop enc rd rs sm xs (E @ [v]) (I @ [fst x]) = Inr (E', I')"
      by simp
    from Cons.IH [OF this] Inr show ?thesis by simp
  qed
qed

lemma embed_loop_total:
  "\<forall>a \<in> set articles. \<not> isl (embed_article enc rd rs sm a) \<Longrightarrow>
   \<exists>E' I'. embed_loop enc rd rs sm articles E I = Inr (E', I')"
proof (induction articles arbitrary: E I)
  case Nil
  then show ?case by simp
next
  case (Cons x xs)
  then show ?case
    by (cases "embed_article enc rd rs sm x") auto
qed

lemma insert_success:
  assumes "connect_to_milvus_insert server cname = (out, server', None)"
    and "server' cname = Some c"
    and "snd (snd (insert_weighted_embeddings enc rd rs server cname articles summaries)) = None"
  shows "fst (snd (insert_weighted_embeddings enc rd rs server cname articles summaries)) cname =
         Some (c\<lparr>entities := entities c @
                 zip (map fst articles)
                   (map (\<lambda>a. projr (embed_article enc rd rs summaries a)) articles)\<rparr>)"
proof (cases "embed_loop enc rd rs summaries articles [] []")
  case (Inl e)
  with assms insert_after_connect [OF assms(1), of enc rd rs articles summaries]
  show ?thesis by (simp add: snd_def split: prod.splits)
next
  case (Inr p)
  obtain E' I' where p: "p = (E', I')" by (cases p)
  from embed_loop_result [of enc rd rs summaries articles "[]" "[]" E' I'] Inr p
  have "E' = map (\<lambda>a. projr (embed_article enc rd rs summaries a)) articles"
    and "I' = map fst articles" by simp_all
  with assms Inr p insert_after_connect [OF assms(1), of enc rd rs articles summaries]
  show ?thesis by (simp add: collection_insert_def)
qed

lemma insert_fault:
  assumes "connect_to_milvus_insert server cname = (out, server', None)"
    and "a \<in> set articles" and "embed_article enc rd rs summaries a = Inl e0"
  shows "\<exists>e. insert_weighted_embeddings enc rd rs server cname articles summaries =
           (out, server', Some e)"
proof -
  from embed_loop_fault [OF assms(2,3)]
  obtain e where "embed_loop enc rd rs summaries articles [] [] = Inl e" by blast
  with assms(1) show ?thesis by (simp add: insert_weighted_embeddings_def)
qed


lemma embed_article_fault:
  "enc (Some ttl) = Inl e0 \<or> enc abstr = Inl e0
     \<or> enc (case summaries aid of None \<Rightarrow> Some [] | Some s \<Rightarrow> s) = Inl e0 \<Longrightarrow>
   \<exists>e. embed_article enc rd rs summaries (aid, ttl, abstr) = Inl e"
  by (auto simp: embed_article_def Let_def split: sum.splits)

lemma unit_encode_total: "\<not> isl (embed_article unit_encode rd rs sm a)"
  by (cases a) (simp add: embed_article_def unit_encode_def combine_embeddings_def weights_def)

lemma new_collection_matches:
  "schema_mismatch (schema_fields (schema new_collection)) = Inr None"
  by (simp add: new_collection_def expected_schema_def)

text \<open>
  C4, as the code has it. If the encoder fails on the title, the abstract or the summary
  of some article of the batch, the exception leaves \<^verbatim>\<open>insert_weighted_embeddings\<close>:
  the server is as \<^verbatim>\<open>connect_to_milvus\<close> left it, so that no article of the batch
  is inserted, and there is no report.
\<close>

theorem embedding_fault_aborts_batch:
  assumes "connect_to_milvus_insert server cname = (out, server', None)"
    and "(aid, ttl, abstr) \<in> set articles"
    and "enc (Some ttl) = Inl e0 \<or> enc abstr = Inl e0
       \<or> enc (case summaries aid of None \<Rightarrow> Some [] | Some s \<Rightarrow> s) = Inl e0"
  shows "\<exists>e. insert_weighted_embeddings enc rd rs server cname articles summaries =
           (out, server', Some e)"
proof -
  from assms(3) embed_article_fault [where enc = enc and ttl = ttl and abstr = abstr
      and summaries = summaries and aid = aid and ?e0.0 = e0 and rd = rd and rs = rs]
  obtain e1 where "embed_article enc rd rs summaries (aid, ttl, abstr) = Inl e1" by blast
  from insert_fault [OF assms(1,2) this] show ?thesis .
qed

theorem embedding_fault_aborts_batch_witness:
  "connect_to_milvus_insert sample_server ''articles'' =
     ([Connected_to_existing_collection ''articles''], sample_server, None)
   \<and> (1, ''Tumour heterogeneity'', Some ''Clonal evolution'') \<in> set sample_batch
   \<and> faulty_encode (Some ''Tumour heterogeneity'') = Inl (External ''encoding fault'')
   \<and> (\<exists>e. insert_weighted_embeddings faulty_encode exact exact sample_server ''articles''
             sample_batch sample_summary_dict =
           ([Connected_to_existing_collection ''articles''], sample_server, Some e))"
proof -
  have h1: "connect_to_milvus_insert sample_server ''articles'' =
     ([Connected_to_existing_collection ''articles''], sample_server, None)"
    by (rule connect_match [of _ _ new_collection])
      (simp_all add: sample_server_def new_collection_matches)
  have h2: "(1, ''Tumour heterogeneity'', Some ''Clonal evolution'') \<in> set sample_batch"
    by (simp add: sample_batch_def)
  have h3: "faulty_encode (Some ''Tumour heterogeneity'') = Inl (External ''encoding fault'')"
    by (simp add: faulty_encode_def)
  from embedding_fault_aborts_batch [OF h1 h2, of faulty_encode "External ''encoding fault''"
      sample_summary_dict exact exact] h3
  have "\<exists>e. insert_weighted_embeddings faulty_encode exact exact sample_server ''articles''
             sample_batch sample_summary_dict =
           ([Connected_to_existing_collection ''articles''], sample_server, Some e)"
    by blast
  with h1 h2 h3 show ?thesis by blast
qed

text \<open>
  C4 as stated fails: the encoder fails on the title of article 1 only, article 2 can
  be embedded, and the run ends with the exception and an empty collection.
\<close>

theorem embedding_fault_counterexample:
  "fst (insert_weighted_embeddings faulty_encode exact exact sample_server ''articles''
          sample_batch sample_summary_dict) = [Connected_to_existing_collection ''articles'']
   \<and> snd (snd (insert_weighted_embeddings faulty_encode exact exact sample_server ''articles''
          sample_batch sample_summary_dict)) = Some (External ''encoding fault'')
   \<and> fst (snd (insert_weighted_embeddings faulty_encode exact exact sample_server ''articles''
          sample_batch sample_summary_dict)) ''articles'' = Some new_collection
   \<and> entities new_collection = []
   \<and> \<not> isl (embed_article faulty_encode exact exact sample_summary_dict
            (2, ''Liquid biopsy'', None))"
proof -
  have c: "connect_to_milvus_insert sample_server ''articles'' =
     ([Connected_to_existing_collection ''articles''], sample_server, None)"
    by (rule connect_match [of _ _ new_collection])
      (simp_all add: sample_server_def new_collection_matches)
  have e: "embed_loop faulty_encode exact exact sample_summary_dict sample_batch [] [] =
      Inl (External ''encoding fault'')"
    by (simp add: sample_batch_def embed_article_def faulty_encode_def sample_summary_dict_def)
  have i: "insert_weighted_embeddings faulty_encode exact exact sample_server ''articles''
          sample_batch sample_summary_dict =
      ([Connected_to_existing_collection ''articles''], sample_server,
       Some (External ''encoding fault''))"
    by (simp add: insert_weighted_embeddings_def c e)
  have s: "sample_server ''articles'' = Some new_collection"
    by (simp add: sample_server_def)
  have n: "entities new_collection = []"
    by (simp add: new_collection_def)
  have t: "\<not> isl (embed_article faulty_encode exact exact sample_summary_dict
            (2, ''Liquid biopsy'', None))"
    by (simp add: embed_article_def faulty_encode_def sample_summary_dict_def
        combine_embeddings_def weights_def)
  from i s n t show ?thesis by simp
qed

text \<open>
  C5, as the code has it. A run of the indexer that succeeds on a collection declared
  with dimension 768 keeps every entity of the collection and adds one entity for each
  article of the batch, in the order of the batch; an entity with the same id is neither
  replaced nor removed.
\<close>

theorem reindexing_appends:
  assumes "server cname = Some c"
    and "filter (\<lambda>f. name f = ''embeddings'') (schema_fields (schema c)) = [f]"
    and "map_of (params f) ''dim'' = Some 768"
    and "insert_weighted_embeddings enc rd rs server cname articles summaries =
           (out, server', None)"
  shows "\<exists>c'. server' cname = Some c'
           \<and> prefix (entities c) (entities c')
           \<and> map fst (entities c') = map fst (entities c) @ map fst articles"
proof -
  from schema_mismatch_single [OF assms(2,3)]
  have "schema_mismatch (schema_fields (schema c)) = Inr None" by simp
  with assms(1) connect_match [where server = server and cname = cname and c = c]
  have k: "connect_to_milvus_insert server cname =
     ([Connected_to_existing_collection cname], server, None)" by simp
  from insert_success [OF k assms(1), of enc rd rs articles summaries] assms(4)
  have "server' cname =
         Some (c\<lparr>entities := entities c @
                 zip (map fst articles)
                   (map (\<lambda>a. projr (embed_article enc rd rs summaries a)) articles)\<rparr>)"
    by simp
  then show ?thesis by simp
qed

lemma weighted_entry:
  fixes rs rd :: "real \<Rightarrow> real" and w x :: real
  assumes single: "\<forall>x. \<bar>x\<bar> \<le> 2 \<longrightarrow> \<bar>rs x - x\<bar> \<le> 1 / 2 ^ 24"
    and double: "\<forall>x. \<bar>x\<bar> \<le> 1 \<longrightarrow> \<bar>rd x - x\<bar> \<le> 1 / 2 ^ 53"
    and w: "0 \<le> w" "w \<le> 1 / 2"
    and x: "\<bar>x\<bar> \<le> 1001 / 1000"
  shows "\<bar>rs (rs (rd w) * x) - w * x\<bar> \<le> 1 / 8000000"
proof -
  have S: "\<bar>rs t - t\<bar> \<le> 1 / 16777216" if "\<bar>t\<bar> \<le> 2" for t
    using single that by simp
  from double w have d: "\<bar>rd w - w\<bar> \<le> 1 / 9007199254740992" by simp
  with w have "\<bar>rd w\<bar> \<le> 2" by linarith
  then have s: "\<bar>rs (rd w) - rd w\<bar> \<le> 1 / 16777216" by (rule S)
  from d s have e: "\<bar>rs (rd w) - w\<bar> \<le> 1 / 16000000" by linarith
  have "\<bar>rs (rd w) * x - w * x\<bar> = \<bar>rs (rd w) - w\<bar> * \<bar>x\<bar>"
    by (simp add: abs_mult left_diff_distrib [symmetric])
  also have "\<dots> \<le> (1 / 16000000) * (1001 / 1000)"
    using e x by (intro mult_mono) simp_all
  finally have p: "\<bar>rs (rd w) * x - w * x\<bar> \<le> 1001 / 16000000000" by simp
  have "\<bar>w * x\<bar> \<le> (1 / 2) * (1001 / 1000)"
    unfolding abs_mult using w x by (intro mult_mono) simp_all
  with p have "\<bar>rs (rd w) * x\<bar> \<le> 2" by linarith
  then have "\<bar>rs (rs (rd w) * x) - rs (rd w) * x\<bar> \<le> 1 / 16777216" by (rule S)
  with p show ?thesis by linarith
qed

lemma fused_entry:
  fixes rs rd :: "real \<Rightarrow> real" and x y z :: real
  assumes single: "\<forall>x. \<bar>x\<bar> \<le> 2 \<longrightarrow> \<bar>rs x - x\<bar> \<le> 1 / 2 ^ 24"
    and double: "\<forall>x. \<bar>x\<bar> \<le> 1 \<longrightarrow> \<bar>rd x - x\<bar> \<le> 1 / 2 ^ 53"
    and x: "\<bar>x\<bar> \<le> 1001 / 1000" and y: "\<bar>y\<bar> \<le> 1001 / 1000" and z: "\<bar>z\<bar> \<le> 1001 / 1000"
  shows "\<bar>rs (rs (rs (rs (rd 0.5) * x) + rs (rs (rd 0.3) * y)) + rs (rs (rd 0.2) * z))
          - (0.5 * x + 0.3 * y + 0.2 * z)\<bar> \<le> 1 / 10 ^ 6"
proof -
  have S: "\<bar>rs t - t\<bar> \<le> 1 / 16777216" if "\<bar>t\<bar> \<le> 2" for t
    using single that by simp
  define p where "p = rs (rs (rd 0.5) * x)"
  define q where "q = rs (rs (rd 0.3) * y)"
  define r where "r = rs (rs (rd 0.2) * z)"
  have p: "\<bar>p - 0.5 * x\<bar> \<le> 1 / 8000000"
    unfolding p_def by (rule weighted_entry [OF single double _ _ x]) simp_all
  have q: "\<bar>q - 0.3 * y\<bar> \<le> 1 / 8000000"
    unfolding q_def by (rule weighted_entry [OF single double _ _ y]) simp_all
  have r: "\<bar>r - 0.2 * z\<bar> \<le> 1 / 8000000"
    unfolding r_def by (rule weighted_entry [OF single double _ _ z]) simp_all
  from p q x y have "\<bar>p + q\<bar> \<le> 2" by linarith
  then have s: "\<bar>rs (p + q) - (p + q)\<bar> \<le> 1 / 16777216" by (rule S)
  from p q r s x y z have "\<bar>rs (p + q) + r\<bar> \<le> 2" by linarith
  then have t: "\<bar>rs (rs (p + q) + r) - (rs (p + q) + r)\<bar> \<le> 1 / 16777216" by (rule S)
  from p q r s t have "\<bar>rs (rs (p + q) + r) - (0.5 * x + 0.3 * y + 0.2 * z)\<bar> \<le> 1 / 1000000"
    by linarith
  then show ?thesis unfolding p_def q_def r_def by simp
qed

lemma entry_le_sum_squares:
  fixes v :: "real list"
  shows "x \<in> set v \<Longrightarrow> x * x \<le> sum_list (map (\<lambda>x. x * x) v)"
proof (induction v)
  case Nil
  then show ?case by simp
next
  case (Cons a v)
  have n: "0 \<le> sum_list (map (\<lambda>x. x * x) v)" by (rule sum_list_nonneg) auto
  have m: "0 \<le> a * a" by simp
  show ?case
  proof (cases "x = a")
    case True
    from n have "a * a \<le> a * a + sum_list (map (\<lambda>x. x * x) v)" by linarith
    with True show ?thesis by simp
  next
    case False
    with Cons have "x * x \<le> sum_list (map (\<lambda>x. x * x) v)" by simp
    with m have "x * x \<le> a * a + sum_list (map (\<lambda>x. x * x) v)" by linarith
    then show ?thesis by simp
  qed
qed

lemma entry_bound:
  assumes "\<bar>sq_norm v - 1\<bar> \<le> 1 / 1000" and "x \<in> set v"
  shows "\<bar>x\<bar> \<le> 1001 / 1000"
proof (rule ccontr)
  assume "\<not> \<bar>x\<bar> \<le> 1001 / 1000"
  then have "1001 / 1000 < \<bar>x\<bar>" by simp
  then have "(1001 / 1000) * (1001 / 1000) < \<bar>x\<bar> * \<bar>x\<bar>"
    by (intro mult_strict_mono) simp_all
  then have "1001 / 1000 < x * x" by simp
  with entry_le_sum_squares [OF assms(2)] assms(1) show False
    unfolding sq_norm_def by linarith
qed

lemma combine_nth:
  assumes "length t = n" "length a = n" "length s = n" "i < n"
  shows "\<exists>fused. combine_embeddings rs t a s (weights rd) = Inr fused \<and> length fused = n
     \<and> fused ! i =
         rs (rs (rs (rs (rd 0.5) * t ! i) + rs (rs (rd 0.3) * a ! i)) + rs (rs (rd 0.2) * s ! i))"
  using assms
  by (simp add: combine_embeddings_def weights_def add_vec_def scale_def)

lemma connect_exists:
  "connect_to_milvus_insert server cname = (out, server', None) \<Longrightarrow> \<exists>c. server' cname = Some c"
  by (auto simp: connect_to_milvus_insert_def split: option.splits sum.splits)

lemma insert_none_connect:
  "snd (snd (insert_weighted_embeddings enc rd rs server cname articles summaries)) = None \<Longrightarrow>
   \<exists>out0 server0. connect_to_milvus_insert server cname = (out0, server0, None)"
  by (cases "connect_to_milvus_insert server cname")
    (auto simp: insert_weighted_embeddings_def split: option.splits)

lemma insert_total:
  assumes "connect_to_milvus_insert server cname = (out0, server0, None)"
    and "\<forall>a \<in> set articles. \<not> isl (embed_article enc rd rs summaries a)"
  shows "fst (insert_weighted_embeddings enc rd rs server cname articles summaries) =
           out0 @ [Inserted_articles (length articles)]
     \<and> snd (snd (insert_weighted_embeddings enc rd rs server cname articles summaries)) = None"
proof -
  from embed_loop_total [OF assms(2), of "[]" "[]"] obtain E' I'
    where l: "embed_loop enc rd rs summaries articles [] [] = Inr (E', I')" by blast
  from embed_loop_result [OF l] have i: "I' = map fst articles" by simp
  from connect_exists [OF assms(1)] obtain c where "server0 cname = Some c" by blast
  with assms(1) l i show ?thesis by (simp add: insert_weighted_embeddings_def)
qed

lemma zip_map_mem:
  "a \<in> set xs \<Longrightarrow> (f a, g a) \<in> set (zip (map f xs) (map g xs))"
  by (induction xs) auto

lemma insert_entities:
  assumes "server cname = Some c"
    and "schema_mismatch (schema_fields (schema c)) = Inr None"
    and "snd (snd (insert_weighted_embeddings enc rd rs server cname articles summaries)) = None"
  shows "\<exists>c'. fst (snd (insert_weighted_embeddings enc rd rs server cname articles summaries))
                cname = Some c'
           \<and> schema c' = schema c
           \<and> prefix (entities c) (entities c')
           \<and> map fst (entities c') = map fst (entities c) @ map fst articles"
proof -
  from assms(1,2) connect_match [where server = server and cname = cname and c = c]
  have k: "connect_to_milvus_insert server cname =
     ([Connected_to_existing_collection cname], server, None)" by simp
  from insert_success [OF k assms(1) assms(3)] show ?thesis by simp
qed


lemma sample_connect:
  "connect_to_milvus_insert sample_server ''articles'' =
     ([Connected_to_existing_collection ''articles''], sample_server, None)"
  by (rule connect_match [of _ _ new_collection])
    (simp_all add: sample_server_def new_collection_matches)

lemma sample_run:
  "insert_weighted_embeddings unit_encode exact exact sample_server ''articles''
     sample_batch sample_summary_dict =
   ([Connected_to_existing_collection ''articles'', Inserted_articles 2],
    once_indexed_server, None)"
proof -
  have "\<forall>a \<in> set sample_batch. \<not> isl (embed_article unit_encode exact exact sample_summary_dict a)"
    by (simp add: unit_encode_total)
  from insert_total [OF sample_connect this]
  show ?thesis
    by (simp add: once_indexed_server_def prod_eq_iff sample_batch_def)
qed

theorem reindexing_appends_witness:
  "sample_server ''articles'' = Some new_collection
   \<and> insert_weighted_embeddings unit_encode exact exact sample_server ''articles''
        sample_batch sample_summary_dict =
      ([Connected_to_existing_collection ''articles'', Inserted_articles 2],
       once_indexed_server, None)
   \<and> (\<exists>c'. once_indexed_server ''articles'' = Some c'
          \<and> map fst (entities c') = map fst (entities new_collection) @ map fst sample_batch)"
proof -
  have h1: "sample_server ''articles'' = Some new_collection"
    by (simp add: sample_server_def)
  from reindexing_appends [OF h1 embeddings_field _ sample_run]
  have "\<exists>c'. once_indexed_server ''articles'' = Some c'
          \<and> map fst (entities c') = map fst (entities new_collection) @ map fst sample_batch"
    by auto
  with h1 sample_run show ?thesis by blast
qed

text \<open>
  C5 as stated fails: after two runs on the same batch the collection holds two
  entities for article 1 and two for article 2.
\<close>

theorem reindexing_counterexample:
  "snd (snd (insert_weighted_embeddings unit_encode exact exact sample_server ''articles''
       sample_batch sample_summary_dict)) = None
   \<and> snd (snd (insert_weighted_embeddings unit_encode exact exact once_indexed_server
       ''articles'' sample_batch sample_summary_dict)) = None
   \<and> map fst (entities (the (fst (snd (insert_weighted_embeddings unit_encode exact exact
       once_indexed_server ''articles'' sample_batch sample_summary_dict)) ''articles'')))
     = [1, 2, 1, 2]"
proof -
  have t: "\<forall>a \<in> set sample_batch.
      \<not> isl (embed_article unit_encode exact exact sample_summary_dict a)"
    by (simp add: unit_encode_total)
  have s: "sample_server ''articles'' = Some new_collection"
    by (simp add: sample_server_def)
  have r1: "snd (snd (insert_weighted_embeddings unit_encode exact exact sample_server ''articles''
       sample_batch sample_summary_dict)) = None"
    by (simp add: sample_run)
  from insert_entities [OF s new_collection_matches r1]
  obtain c1 where c1: "once_indexed_server ''articles'' = Some c1"
      "schema c1 = schema new_collection"
      "map fst (entities c1) = map fst (entities new_collection) @ map fst sample_batch"
    unfolding once_indexed_server_def by blast
  from c1(2) have m: "schema_mismatch (schema_fields (schema c1)) = Inr None"
    by (simp add: new_collection_matches)
  from c1(1) m connect_match [where server = once_indexed_server and cname = "''articles''"
      and c = c1]
  have k: "connect_to_milvus_insert once_indexed_server ''articles'' =
     ([Connected_to_existing_collection ''articles''], once_indexed_server, None)" by simp
  from insert_total [OF k t]
  have r2: "snd (snd (insert_weighted_embeddings unit_encode exact exact once_indexed_server
       ''articles'' sample_batch sample_summary_dict)) = None" by simp
  from insert_entities [OF c1(1) m r2]
  obtain c2 where c2: "fst (snd (insert_weighted_embeddings unit_encode exact exact
       once_indexed_server ''articles'' sample_batch sample_summary_dict)) ''articles'' = Some c2"
      "map fst (entities c2) = map fst (entities c1) @ map fst sample_batch"
    by blast
  from c1(3) c2(2) have "map fst (entities c2) = [1, 2, 1, 2]"
    by (simp add: new_collection_def sample_batch_def)
  with r1 r2 c2(1) show ?thesis by simp
qed

text \<open>
  C3. Let \<open>rs\<close> round to single precision with an error of at most \<open>2\<^sup>-\<^sup>2\<^sup>4\<close> on
  \<open>[-2, 2]\<close> and \<open>rd\<close> to double precision with an error of at most \<open>2\<^sup>-\<^sup>5\<^sup>3\<close> on
  \<open>[-1, 1]\<close>, as rounding to nearest does. For an article of a batch that the indexer
  inserts, with the three field vectors of dimension 768 and of norm 1 up to rounding,
  the collection holds for the id of the article the vector that
  \<^verbatim>\<open>combine_embeddings\<close> returns, and each entry of it is within \<open>10\<^sup>-\<^sup>6\<close> of
  \<open>0.5 * v_title + 0.3 * v_abstract + 0.2 * v_summary\<close>. Nothing normalises the sum:
  a vector scaled to norm 1 would leave this distance whenever the norm of the sum
  is not 1.
\<close>

theorem fused_vector_weights:
  assumes single: "\<forall>x. \<bar>x\<bar> \<le> 2 \<longrightarrow> \<bar>rs x - x\<bar> \<le> 1 / 2 ^ 24"
    and double: "\<forall>x. \<bar>x\<bar> \<le> 1 \<longrightarrow> \<bar>rd x - x\<bar> \<le> 1 / 2 ^ 53"
    and run: "insert_weighted_embeddings enc rd rs server cname articles summaries =
                (out, server', None)"
    and art: "(aid, ttl, abstr) \<in> set articles"
    and enc: "enc (Some ttl) = Inr v_title" "enc abstr = Inr v_abstract"
      "enc (case summaries aid of None \<Rightarrow> Some [] | Some s \<Rightarrow> s) = Inr v_summary"
    and len: "length v_title = 768" "length v_abstract = 768" "length v_summary = 768"
    and norm: "\<bar>sq_norm v_title - 1\<bar> \<le> 1 / 1000" "\<bar>sq_norm v_abstract - 1\<bar> \<le> 1 / 1000"
      "\<bar>sq_norm v_summary - 1\<bar> \<le> 1 / 1000"
  shows "\<exists>c fused. server' cname = Some c \<and> (aid, fused) \<in> set (entities c)
           \<and> combine_embeddings rs v_title v_abstract v_summary (weights rd) = Inr fused
           \<and> length fused = 768
           \<and> (\<forall>i<768. \<bar>fused ! i
                  - (0.5 * v_title ! i + 0.3 * v_abstract ! i + 0.2 * v_summary ! i)\<bar>
                \<le> 1 / 10 ^ 6)"
proof -
  let ?emb = "\<lambda>a. projr (embed_article enc rd rs summaries a)"
  from run have none:
    "snd (snd (insert_weighted_embeddings enc rd rs server cname articles summaries)) = None"
    by simp
  from insert_none_connect [OF none] obtain out0 server0
    where k: "connect_to_milvus_insert server cname = (out0, server0, None)" by blast
  from connect_exists [OF k] obtain c0 where c0: "server0 cname = Some c0" by blast
  from insert_success [OF k c0 none] run
  have s: "server' cname =
      Some (c0\<lparr>entities := entities c0 @ zip (map fst articles) (map ?emb articles)\<rparr>)"
    by simp
  have e: "embed_article enc rd rs summaries (aid, ttl, abstr) =
      combine_embeddings rs v_title v_abstract v_summary (weights rd)"
    using enc by (simp add: embed_article_def)
  from combine_nth [OF len, of 0 rs rd] obtain fused
    where f: "combine_embeddings rs v_title v_abstract v_summary (weights rd) = Inr fused"
      "length fused = 768" by auto
  from zip_map_mem [OF art, of fst ?emb] e f(1)
  have m: "(aid, fused) \<in> set (zip (map fst articles) (map ?emb articles))" by simp
  have b: "\<bar>fused ! i - (0.5 * v_title ! i + 0.3 * v_abstract ! i + 0.2 * v_summary ! i)\<bar>
          \<le> 1 / 10 ^ 6" if i: "i < 768" for i
  proof -
    from combine_nth [OF len i, of rs rd] f(1)
    have n: "fused ! i =
         rs (rs (rs (rs (rd 0.5) * v_title ! i) + rs (rs (rd 0.3) * v_abstract ! i))
           + rs (rs (rd 0.2) * v_summary ! i))" by simp
    from i len have "v_title ! i \<in> set v_title" "v_abstract ! i \<in> set v_abstract"
      "v_summary ! i \<in> set v_summary" by simp_all
    with norm have "\<bar>v_title ! i\<bar> \<le> 1001 / 1000" "\<bar>v_abstract ! i\<bar> \<le> 1001 / 1000"
      "\<bar>v_summary ! i\<bar> \<le> 1001 / 1000"
      by (blast intro: entry_bound)+
    from fused_entry [OF single double this] n show ?thesis by simp
  qed
  from s m f b show ?thesis by auto
qed


theorem fused_vector_weights_witness:
  "insert_weighted_embeddings unit_encode exact exact sample_server ''articles''
        sample_batch sample_summary_dict =
      ([Connected_to_existing_collection ''articles'', Inserted_articles 2],
       once_indexed_server, None)
   \<and> (1, ''Tumour heterogeneity'', Some ''Clonal evolution'') \<in> set sample_batch
   \<and> unit_encode (Some ''Tumour heterogeneity'') = Inr (1 # replicate 767 0)
   \<and> length (1 # replicate 767 (0::real)) = 768
   \<and> \<bar>sq_norm (1 # replicate 767 0) - 1\<bar> \<le> 1 / 1000
   \<and> (\<exists>c fused. once_indexed_server ''articles'' = Some c \<and> (1, fused) \<in> set (entities c)
         \<and> length fused = 768 \<and> \<bar>fused ! 0 - 1\<bar> \<le> 1 / 10 ^ 6)"
proof -
  let ?v = "1 # replicate 767 (0::real)"
  have single: "\<forall>x. \<bar>x\<bar> \<le> 2 \<longrightarrow> \<bar>exact x - x\<bar> \<le> 1 / 2 ^ 24"
    by (simp add: exact_def)
  have double: "\<forall>x. \<bar>x\<bar> \<le> 1 \<longrightarrow> \<bar>exact x - x\<bar> \<le> 1 / 2 ^ 53"
    by (simp add: exact_def)
  have art: "(1, ''Tumour heterogeneity'', Some ''Clonal evolution'') \<in> set sample_batch"
    by (simp add: sample_batch_def)
  have enc: "unit_encode t = Inr ?v" for t
    by (simp add: unit_encode_def)
  have len: "length ?v = 768" by simp
  have norm: "\<bar>sq_norm ?v - 1\<bar> \<le> 1 / 1000"
    by (simp add: sq_norm_def sum_list_replicate)
  from fused_vector_weights [OF single double sample_run art enc enc enc len len len
      norm norm norm]
  obtain c fused where c: "once_indexed_server ''articles'' = Some c"
      "(1, fused) \<in> set (entities c)" "length fused = 768"
    and b: "\<forall>i<768. \<bar>fused ! i - (0.5 * ?v ! i + 0.3 * ?v ! i + 0.2 * ?v ! i)\<bar> \<le> 1 / 10 ^ 6"
    by blast
  from spec [OF b, of 0] have "\<bar>fused ! 0 - 1\<bar> \<le> 1 / 10 ^ 6" by simp
  with c sample_run art enc len norm show ?thesis by blast
qed

section \<open>Collection lifecycle\<close>






end
